theory Spec2Isabelle
  imports Main "HOL-Library.Sublist"
begin

section \<open>Strings and characters of the JavaScript runtime\<close>

text \<open>
  The translator in \<^verbatim>\<open>src/server/lib/mysqlToSQLiteParser.js\<close> works on JavaScript
  strings with regular expressions. A string is modelled as a list of 8-bit characters,
  one per UTF-16 code unit, so the model covers the strings whose code units are below
  256. In that range the white space of \<^verbatim>\<open>\s\<close> and of \<^verbatim>\<open>trim\<close> is
  TAB, LF, VT, FF, CR, SPACE and NBSP, and the line terminators that \<^verbatim>\<open>.\<close> refuses
  are LF and CR. \<^verbatim>\<open>toLowerCase\<close> and \<^verbatim>\<open>toUpperCase\<close> are modelled on the ASCII
  letters only: the program compares their results with ASCII keywords only. Of the
  other characters of that range only U+00DF gets ASCII letters, \<^verbatim>\<open>SS\<close> in upper case,
  and no keyword that the program looks for in an upper-cased line begins with them.
\<close>

definition is_space :: "char \<Rightarrow> bool" where
  "is_space c = (c \<in> set [CHR 0x09, CHR 0x0A, CHR 0x0B, CHR 0x0C, CHR 0x0D, CHR 0x20, CHR 0xA0])"

definition is_line_terminator :: "char \<Rightarrow> bool" where
  "is_line_terminator c = (c = CHR 0x0A \<or> c = CHR 0x0D)"

definition is_digit :: "char \<Rightarrow> bool" where
  "is_digit c = (let n = (of_char c :: nat) in 48 \<le> n \<and> n \<le> 57)"

definition is_upper :: "char \<Rightarrow> bool" where
  "is_upper c = (let n = (of_char c :: nat) in 65 \<le> n \<and> n \<le> 90)"

definition is_lower :: "char \<Rightarrow> bool" where
  "is_lower c = (let n = (of_char c :: nat) in 97 \<le> n \<and> n \<le> 122)"

definition is_word :: "char \<Rightarrow> bool" where
  "is_word c = (is_upper c \<or> is_lower c \<or> is_digit c \<or> c = CHR ''_'')"

definition to_upper :: "char \<Rightarrow> char" where
  "to_upper c = (if is_lower c then char_of (of_char c - (32::nat)) else c)"

definition to_lower :: "char \<Rightarrow> char" where
  "to_lower c = (if is_upper c then char_of (of_char c + (32::nat)) else c)"

definition toUpperCase :: "string \<Rightarrow> string" where
  "toUpperCase s = map to_upper s"

definition toLowerCase :: "string \<Rightarrow> string" where
  "toLowerCase s = map to_lower s"

definition trim :: "string \<Rightarrow> string" where
  "trim s = rev (dropWhile is_space (rev (dropWhile is_space s)))"

text \<open>\<^verbatim>\<open>s.split(d)\<close> for a one-character separator, and \<^verbatim>\<open>xs.join(sep)\<close>.\<close>

fun split :: "char \<Rightarrow> string \<Rightarrow> string list" where
  "split d [] = [[]]"
| "split d (c # cs) =
     (let r = split d cs in if c = d then [] # r else (c # hd r) # tl r)"

fun join :: "string \<Rightarrow> string list \<Rightarrow> string" where
  "join sep [] = []"
| "join sep [x] = x"
| "join sep (x # y # ys) = x @ sep @ join sep (y # ys)"

text \<open>\<^verbatim>\<open>xs.indexOf(x)\<close>: the first index that holds \<open>x\<close>, or \<open>-1\<close>.\<close>

fun indexOf :: "'a list \<Rightarrow> 'a \<Rightarrow> int" where
  "indexOf [] x = - 1"
| "indexOf (y # ys) x =
     (if y = x then 0 else (let i = indexOf ys x in if i < 0 then - 1 else i + 1))"

text \<open>\<^verbatim>\<open>xs.slice(k)\<close> for \<open>k \<ge> 0\<close> (the program calls it with an index plus one).\<close>

definition slice :: "'a list \<Rightarrow> int \<Rightarrow> 'a list" where
  "slice xs k = drop (nat k) xs"

section \<open>Regular expressions\<close>

text \<open>
  The regular expressions of the program, as syntax trees: literals, the character
  classes \<^verbatim>\<open>.\<close>, \<^verbatim>\<open>\s\<close>, \<^verbatim>\<open>\d\<close>, \<^verbatim>\<open>\w\<close>, \<^verbatim>\<open>[...]\<close> and \<^verbatim>\<open>[^...]\<close>,
  sequence, alternation, the greedy quantifiers \<^verbatim>\<open>?\<close> and \<^verbatim>\<open>*\<close>, the lazy
  \<^verbatim>\<open>*?\<close>, capture groups, \<^verbatim>\<open>\b\<close>, \<^verbatim>\<open>$\<close> (no multiline flag) and the empty
  pattern. \<^verbatim>\<open>r+\<close> is \<open>r\<close> followed by \<^verbatim>\<open>r*\<close>.
\<close>

datatype cclass = Dot | WhiteSpace | Digit | WordChar | OneOf string | NoneOf string

fun cls_match :: "cclass \<Rightarrow> char \<Rightarrow> bool" where
  "cls_match Dot c = (\<not> is_line_terminator c)"
| "cls_match WhiteSpace c = is_space c"
| "cls_match Digit c = is_digit c"
| "cls_match WordChar c = is_word c"
| "cls_match (OneOf cs) c = (c \<in> set cs)"
| "cls_match (NoneOf cs) c = (c \<notin> set cs)"

datatype rx = Lit string | Cls cclass | Seq rx rx | Alt rx rx | Opt rx | Star rx
  | LazyStar rx | Grp nat rx | Bnd | Eol | Eps

abbreviation Plus :: "rx \<Rightarrow> rx" where
  "Plus r \<equiv> Seq r (Star r)"

fun seqs :: "rx list \<Rightarrow> rx" where
  "seqs [] = Eps"
| "seqs [r] = r"
| "seqs (r # rs) = Seq r (seqs rs)"

text \<open>
  A matcher state is the character before the current position (for \<^verbatim>\<open>\b\<close>), the
  input from the current position on, and the captures so far. \<open>rx_match\<close> lists the
  states in which a pattern can end from a state, in the order in which the
  backtracking matcher of ECMAScript tries them; the first one is the match. An
  iteration of a quantifier that consumes nothing is refused, as the RepeatMatcher
  does. With the flag \<^verbatim>\<open>i\<close> two characters are equal when their upper cases are.
\<close>

type_synonym captures = "nat \<Rightarrow> string option"
type_synonym mstate = "char option \<times> string \<times> captures"

definition chr_eq :: "bool \<Rightarrow> char \<Rightarrow> char \<Rightarrow> bool" where
  "chr_eq ci x y = (if ci then to_upper x = to_upper y else x = y)"

fun lit_match :: "bool \<Rightarrow> string \<Rightarrow> char option \<Rightarrow> string \<Rightarrow> (char option \<times> string) option" where
  "lit_match ci [] p s = Some (p, s)"
| "lit_match ci (x # xs) p [] = None"
| "lit_match ci (x # xs) p (y # ys) =
     (if chr_eq ci x y then lit_match ci xs (Some y) ys else None)"

definition word_before :: "char option \<Rightarrow> bool" where
  "word_before p = (case p of None \<Rightarrow> False | Some c \<Rightarrow> is_word c)"

definition word_after :: "string \<Rightarrow> bool" where
  "word_after s = (case s of [] \<Rightarrow> False | c # _ \<Rightarrow> is_word c)"

definition rest_of :: "mstate \<Rightarrow> string" where
  "rest_of st = fst (snd st)"

definition advanced :: "mstate \<Rightarrow> mstate \<Rightarrow> bool" where
  "advanced st st' = (length (rest_of st') < length (rest_of st))"

definition set_group :: "nat \<Rightarrow> string \<Rightarrow> mstate \<Rightarrow> mstate" where
  "set_group n s st =
     (case st of (p', s', g) \<Rightarrow> (p', s', g(n \<mapsto> take (length s - length s') s)))"

function (sequential) rx_match :: "bool \<Rightarrow> rx \<Rightarrow> mstate \<Rightarrow> mstate list" where
  "rx_match ci (Lit l) st =
     (case lit_match ci l (fst st) (rest_of st) of
        None \<Rightarrow> []
      | Some (p', s') \<Rightarrow> [(p', s', snd (snd st))])"
| "rx_match ci (Cls k) st =
     (case rest_of st of
        [] \<Rightarrow> []
      | y # ys \<Rightarrow> if cls_match k y then [(Some y, ys, snd (snd st))] else [])"
| "rx_match ci (Seq a b) st = concat (map (rx_match ci b) (rx_match ci a st))"
| "rx_match ci (Alt a b) st = rx_match ci a st @ rx_match ci b st"
| "rx_match ci (Opt a) st = filter (advanced st) (rx_match ci a st) @ [st]"
| "rx_match ci (Star a) st =
     concat (map (\<lambda>st'. if advanced st st' then rx_match ci (Star a) st' else [])
                 (rx_match ci a st)) @ [st]"
| "rx_match ci (LazyStar a) st =
     st # concat (map (\<lambda>st'. if advanced st st' then rx_match ci (LazyStar a) st' else [])
                      (rx_match ci a st))"
| "rx_match ci (Grp n a) st = map (set_group n (rest_of st)) (rx_match ci a st)"
| "rx_match ci Bnd st = (if word_before (fst st) \<noteq> word_after (rest_of st) then [st] else [])"
| "rx_match ci Eol st = (if rest_of st = [] then [st] else [])"
| "rx_match ci Eps st = [st]"
  by pat_completeness auto
termination
  by (relation "measures [\<lambda>(ci, r, st). size r, \<lambda>(ci, r, st). length (rest_of st)]")
     (auto simp: advanced_def)

text \<open>The match of a pattern that starts at the current position, if there is one.\<close>

definition rx_exec :: "bool \<Rightarrow> rx \<Rightarrow> char option \<Rightarrow> string \<Rightarrow> mstate option" where
  "rx_exec ci r p s = (case rx_match ci r (p, s, Map.empty) of [] \<Rightarrow> None | st # _ \<Rightarrow> Some st)"

text \<open>
  \<^verbatim>\<open>s.replace(/r/g, f)\<close>: at each position from the left the pattern is tried; a match
  is replaced by \<open>f\<close> of its captures and the scan goes on behind it, or one character
  further when the match is empty; a character where nothing matches is copied. The
  argument \<open>p\<close> is the character before \<open>s\<close> (none at the start of the string).
\<close>

fun replace_all :: "bool \<Rightarrow> rx \<Rightarrow> (captures \<Rightarrow> string) \<Rightarrow> char option \<Rightarrow> string \<Rightarrow> string" where
  "replace_all ci r f p s =
     (case rx_exec ci r p s of
        None \<Rightarrow> (case s of [] \<Rightarrow> [] | c # cs \<Rightarrow> c # replace_all ci r f (Some c) cs)
      | Some (p', s', g) \<Rightarrow>
          f g @ (if length s' < length s then replace_all ci r f p' s'
                 else (case s of [] \<Rightarrow> [] | c # cs \<Rightarrow> c # replace_all ci r f (Some c) cs)))"

text \<open>\<^verbatim>\<open>s.replace(/r/, f)\<close> without the flag \<^verbatim>\<open>g\<close>: the first match only.\<close>

fun replace_first :: "bool \<Rightarrow> rx \<Rightarrow> (captures \<Rightarrow> string) \<Rightarrow> char option \<Rightarrow> string \<Rightarrow> string" where
  "replace_first ci r f p s =
     (case rx_exec ci r p s of
        None \<Rightarrow> (case s of [] \<Rightarrow> [] | c # cs \<Rightarrow> c # replace_first ci r f (Some c) cs)
      | Some (p', s', g) \<Rightarrow> f g @ s')"

text \<open>\<^verbatim>\<open>s.match(/r/)\<close> without the flag \<^verbatim>\<open>g\<close>: the captures of the first match, or null.\<close>

fun match :: "bool \<Rightarrow> rx \<Rightarrow> char option \<Rightarrow> string \<Rightarrow> captures option" where
  "match ci r p s =
     (case rx_exec ci r p s of
        None \<Rightarrow> (case s of [] \<Rightarrow> None | c # cs \<Rightarrow> match ci r (Some c) cs)
      | Some (p', s', g) \<Rightarrow> Some g)"

text \<open>
  A replacement string: text and group references \<^verbatim>\<open>$n\<close>; a group that did not
  take part in the match is replaced by the empty string.
\<close>

datatype tpart = T string | G nat

fun subst :: "tpart list \<Rightarrow> captures \<Rightarrow> string" where
  "subst [] g = []"
| "subst (T s # ts) g = s @ subst ts g"
| "subst (G n # ts) g = (case g n of None \<Rightarrow> [] | Some s \<Rightarrow> s) @ subst ts g"

fun alts :: "rx list \<Rightarrow> rx" where
  "alts [] = Eps"
| "alts [r] = r"
| "alts (r # rs) = Alt r (alts rs)"

section \<open>The translator\<close>

subsection \<open>formatSQL\<close>

text \<open>
  A query on one line with no \<^verbatim>\<open>case when\<close> and no \<^verbatim>\<open>group by\<close> is put on one line
  with single spaces. Otherwise its lines are trimmed, the empty ones dropped, and
  the lines after a line that starts with SELECT are indented by four spaces until a
  line starts with one of the clause keywords.
\<close>

definition clause_line :: "string \<Rightarrow> bool" where
  "clause_line line =
     (prefix ''FROM'' (toUpperCase line) \<or>
      prefix ''WHERE'' (toUpperCase line) \<or>
      prefix ''GROUP BY'' (toUpperCase line) \<or>
      prefix ''HAVING'' (toUpperCase line) \<or>
      prefix ''ORDER BY'' (toUpperCase line) \<or>
      prefix ''LIMIT'' (toUpperCase line))"

fun formatSQL_loop :: "string list \<Rightarrow> string list \<Rightarrow> nat \<Rightarrow> string list" where
  "formatSQL_loop [] result indentLevel = result"
| "formatSQL_loop (line # lines) result indentLevel =
     (let level = (if clause_line line then 0 else indentLevel);
          indent = concat (replicate (max 0 level) ''    '')
      in formatSQL_loop lines (result @ [indent @ line])
           (if prefix ''SELECT'' (toUpperCase line) then 1 else level))"

definition formatSQL :: "string \<Rightarrow> string" where
  "formatSQL sql =
     (if CHR 0x0A \<notin> set sql \<and> \<not> sublist ''case when'' (toLowerCase sql)
         \<and> \<not> sublist ''group by'' (toLowerCase sql)
      then trim (replace_all False (Plus (Cls WhiteSpace)) (\<lambda>g. '' '') None sql)
      else join [CHR 0x0A]
             (formatSQL_loop (filter (\<lambda>line. line \<noteq> []) (map trim (split (CHR 0x0A) sql))) [] 0))"

subsection \<open>formatCreateTable\<close>

text \<open>
  The only exception the program can raise: \<^verbatim>\<open>line.match(...)[1]\<close> reads an index of
  \<^verbatim>\<open>null\<close> when the pattern has no match in the line.
\<close>

datatype js_error = TypeError

definition create_table_rx :: rx where
  "create_table_rx = seqs [Lit ''CREATE TABLE'', Plus (Cls WhiteSpace), Grp 1 (Plus (Cls WordChar))]"

definition trailing_comma_rx :: rx where
  "trailing_comma_rx = seqs [Lit '','', Star (Cls WhiteSpace), Eol]"

text \<open>
  The loop over the lines, with the array \<open>result\<close> built so far and the flag
  \<open>inColumns\<close>. \<open>all_lines\<close> is the whole array \<open>lines\<close>, which the test for the last
  column searches.
\<close>

fun formatCreateTable_loop ::
  "string list \<Rightarrow> string list \<Rightarrow> string list \<Rightarrow> bool \<Rightarrow> js_error + string list" where
  "formatCreateTable_loop all_lines [] result inColumns = Inr result"
| "formatCreateTable_loop all_lines (line # lines) result inColumns =
     (if prefix ''CREATE TABLE'' line then
        (case match False create_table_rx None line of
           None \<Rightarrow> Inl TypeError
         | Some g \<Rightarrow>
             (let tableName = (case g 1 of None \<Rightarrow> ''undefined'' | Some n \<Rightarrow> n)
              in formatCreateTable_loop all_lines lines
                   (result @ [''CREATE TABLE '' @ tableName @ '' ('']) True))
      else if suffix '');'' line \<or> line = '');'' \<or> line = '')'' then
        formatCreateTable_loop all_lines lines (result @ [''    );'']) False
      else if inColumns then
        (let isLastColumn =
               (\<not> list_ex (\<lambda>l. \<not> prefix '')'' l) (slice all_lines (indexOf all_lines line + 1)));
             column = replace_first False trailing_comma_rx (\<lambda>g. []) None line
                        @ (if isLastColumn then [] else '','')
         in formatCreateTable_loop all_lines lines (result @ [''    '' @ column]) inColumns)
      else
        formatCreateTable_loop all_lines lines (result @ [line]) inColumns)"

definition formatCreateTable :: "string \<Rightarrow> js_error + string" where
  "formatCreateTable sql =
     (let lines = filter (\<lambda>line. line \<noteq> []) (map trim (split (CHR 0x0A) sql))
      in case formatCreateTable_loop lines lines [] False of
           Inl e \<Rightarrow> Inl e
         | Inr result \<Rightarrow> Inr (join [CHR 0x0A] result))"

subsection \<open>handleGroupConcat\<close>

definition group_concat_distinct_rx :: rx where
  "group_concat_distinct_rx =
     seqs [Lit ''GROUP_CONCAT('',
           Opt (Grp 1 (seqs [Lit ''DISTINCT'', Plus (Cls WhiteSpace)])),
           Grp 2 (Plus (Cls (NoneOf '')''))),
           Lit '')'']"

definition group_concat_distinct_fn :: "captures \<Rightarrow> string" where
  "group_concat_distinct_fn g =
     (let distinct = (case g 1 of None \<Rightarrow> [] | Some d \<Rightarrow> d);
          args = (case g 2 of None \<Rightarrow> ''undefined'' | Some a \<Rightarrow> a)
      in ''GROUP_CONCAT('' @ distinct @ args @ '')'')"

definition group_concat_dot_rx :: rx where
  "group_concat_dot_rx =
     seqs [Lit ''GROUP_CONCAT('',
           Grp 1 (seqs [Plus (Cls (NoneOf '')'')), Lit ''.'', Plus (Cls (NoneOf '')''))]),
           Lit '')'']"

definition handleGroupConcat :: "string \<Rightarrow> string" where
  "handleGroupConcat sql =
     replace_all True group_concat_dot_rx (subst [T ''GROUP_CONCAT('', G 1, T '')'']) None
       (replace_all True group_concat_distinct_rx group_concat_distinct_fn None sql)"

subsection \<open>The function mappings\<close>

text \<open>
  The table \<open>functionMappings\<close>, in the order of the source: for each rule the flag
  \<^verbatim>\<open>i\<close>, the pattern and the replacement (all rules have the flag \<^verbatim>\<open>g\<close>). The
  replacement of the first rule is a function, \<^verbatim>\<open>args.split(',').join(' || ')\<close>; its
  group takes part in every match of its pattern.
\<close>

definition concat_fn :: "captures \<Rightarrow> string" where
  "concat_fn g = (case g 1 of None \<Rightarrow> [] | Some args \<Rightarrow> join '' || '' (split (CHR '','') args))"

definition functionMappings :: "(bool \<times> rx \<times> (captures \<Rightarrow> string)) list" where
  "functionMappings =
    [(False, seqs [Lit ''CONCAT('', Grp 1 (LazyStar (Cls Dot)), Lit '')''], concat_fn),
     (False, seqs [Lit ''SUBSTRING('', Grp 1 (LazyStar (Cls Dot)), Lit '')''],
        subst [T ''substr('', G 1, T '')'']),
     (False, seqs [Bnd, Grp 1 (alts [Lit ''LENGTH'', Lit ''UPPER'', Lit ''LOWER'', Lit ''TRIM'',
                                      Lit ''LTRIM'', Lit ''RTRIM'', Lit ''REPLACE'']), Lit ''(''],
        subst [G 1, T ''('']),

     (False, seqs [Lit ''DATE_ADD('', Grp 1 (LazyStar (Cls Dot)), Lit '','', Star (Cls WhiteSpace),
                   Lit ''INTERVAL'', Star (Cls WhiteSpace), Grp 2 (Plus (Cls Digit)),
                   Star (Cls WhiteSpace), Lit ''DAY)''],
        subst [T ''DATETIME('', G 1, T '', '+'', G 2, T '' DAY')'']),
     (False, seqs [Lit ''DATE_SUB('', Grp 1 (LazyStar (Cls Dot)), Lit '','', Star (Cls WhiteSpace),
                   Lit ''INTERVAL'', Star (Cls WhiteSpace), Grp 2 (Plus (Cls Digit)),
                   Star (Cls WhiteSpace), Lit ''DAY)''],
        subst [T ''DATETIME('', G 1, T '', '-'', G 2, T '' DAY')'']),
     (False, seqs [Lit ''DATEDIFF('', Grp 1 (LazyStar (Cls Dot)), Lit '','',
                   Grp 2 (LazyStar (Cls Dot)), Lit '')''],
        subst [T ''CAST((JULIANDAY('', G 1, T '') - JULIANDAY('', G 2, T '')) AS INTEGER)'']),
     (False, seqs [Lit ''YEAR('', Grp 1 (LazyStar (Cls Dot)), Lit '')''],
        subst [T ''CAST(strftime('%Y', '', G 1, T '') AS INTEGER)'']),
     (False, seqs [Lit ''MONTH('', Grp 1 (LazyStar (Cls Dot)), Lit '')''],
        subst [T ''CAST(strftime('%m', '', G 1, T '') AS INTEGER)'']),
     (False, seqs [Lit ''DAY('', Grp 1 (LazyStar (Cls Dot)), Lit '')''],
        subst [T ''CAST(strftime('%d', '', G 1, T '') AS INTEGER)'']),
     (False, Lit ''NOW()'', subst [T ''DATETIME('now')'']),

     (False, seqs [Lit ''CEIL('', Grp 1 (LazyStar (Cls Dot)), Lit '')''],
        subst [T ''CAST(ROUND('', G 1, T '' + 0.5) AS INTEGER)'']),
     (False, seqs [Lit ''FLOOR('', Grp 1 (LazyStar (Cls Dot)), Lit '')''],
        subst [T ''CAST('', G 1, T '' AS INTEGER)'']),
     (False, seqs [Bnd, Grp 1 (alts [Lit ''POW'', Lit ''ABS'', Lit ''SQRT'']), Lit ''(''],
        subst [G 1, T ''('']),
     (False, seqs [Lit ''MOD('', Grp 1 (LazyStar (Cls Dot)), Lit '','',
                   Grp 2 (LazyStar (Cls Dot)), Lit '')''],
        subst [T ''('', G 1, T '' % '', G 2, T '')'']),
     (False, seqs [Bnd, Lit ''RAND()''],
        subst [T ''(ABS(RANDOM()) % 1000000 + 1) / 1000000.0'']),

     (False, seqs [Lit ''IFNULL('', Grp 1 (LazyStar (Cls Dot)), Lit '','',
                   Grp 2 (LazyStar (Cls Dot)), Lit '')''],
        subst [T ''COALESCE('', G 1, T '', '', G 2, T '')'']),
     (False, seqs [Lit ''IF('', Grp 1 (LazyStar (Cls Dot)), Lit '','',
                   Grp 2 (LazyStar (Cls Dot)), Lit '','', Grp 3 (LazyStar (Cls Dot)), Lit '')''],
        subst [T ''CASE WHEN '', G 1, T '' THEN '', G 2, T '' ELSE '', G 3, T '' END'']),
     (False, seqs [Lit ''NULLIF('', Grp 1 (LazyStar (Cls Dot)), Lit '','',
                   Grp 2 (LazyStar (Cls Dot)), Lit '')''],
        subst [T ''CASE WHEN '', G 1, T '' = '', G 2, T '' THEN NULL ELSE '', G 1, T '' END'']),

     (False, seqs [Bnd, Opt (alts [Lit ''TINY'', Lit ''SMALL'', Lit ''MEDIUM'', Lit ''BIG'']),
                   Lit ''INT('', Plus (Cls Digit), Lit '')''],
        subst [T ''INTEGER'']),
     (False, Alt (seqs [Bnd, Opt (Lit ''VAR''), Lit ''CHAR('', Plus (Cls Digit), Lit '')''])
                 (seqs [Lit ''TEXT('', Plus (Cls Digit), Lit '')'']),
        subst [T ''TEXT'']),
     (False, seqs [Bnd, alts [Lit ''DECIMAL'', Lit ''FLOAT'', Lit ''DOUBLE''], Lit ''('',
                   Plus (Cls Digit), Lit '','', Plus (Cls Digit), Lit '')''],
        subst [T ''REAL'']),
     (False, seqs [Bnd, Lit ''TIMESTAMP'', Bnd], subst [T ''DATETIME'']),
     (False, seqs [Bnd, Lit ''BINARY'', Bnd], subst [T ''BLOB'']),

     (False, seqs [Bnd, alts [Lit ''LEFT'', Lit ''RIGHT'', Lit ''FULL''], Plus (Cls WhiteSpace),
                   Opt (seqs [Lit ''OUTER'', Plus (Cls WhiteSpace)]), Lit ''JOIN'', Bnd],
        subst [T ''LEFT JOIN'']),
     (False, Alt (seqs [Bnd, Lit ''INNER'', Plus (Cls WhiteSpace), Lit ''JOIN'', Bnd])
                 (seqs [Bnd, Lit ''JOIN'', Bnd]),
        subst [T ''INNER JOIN'']),

     (True, seqs [Lit ''AUTO'', Opt (Lit ''_''), Lit ''INCREMENT'',
                  Alt (seqs [Plus (Cls WhiteSpace), Lit ''PRIMARY'', Plus (Cls WhiteSpace),
                             Lit ''KEY''])
                      Eps],
        subst [T ''PRIMARY KEY AUTOINCREMENT'']),
     (True, seqs [Lit ''PRIMARY'', Plus (Cls WhiteSpace), Lit ''KEY'', Plus (Cls WhiteSpace),
                  Lit ''AUTO'', Opt (Lit ''_''), Lit ''INCREMENT''],
        subst [T ''PRIMARY KEY AUTOINCREMENT''])]"

subsection \<open>mysqlToSQLiteParser\<close>

text \<open>\<^verbatim>\<open>functionMappings.forEach\<close>: each rule rewrites the result of the one before.\<close>

definition apply_mapping :: "string \<Rightarrow> bool \<times> rx \<times> (captures \<Rightarrow> string) \<Rightarrow> string" where
  "apply_mapping sqliteQuery m =
     (case m of (ci, regex, replacement) \<Rightarrow> replace_all ci regex replacement None sqliteQuery)"

definition apply_mappings :: "string \<Rightarrow> string" where
  "apply_mappings mysqlQuery = foldl apply_mapping mysqlQuery functionMappings"

text \<open>The post-processing: the MySQL table options go, white space is cleaned up.\<close>

definition table_options_rx :: rx where
  "table_options_rx =
     alts [seqs [Lit ''ENGINE='', Plus (Cls WordChar)],
           seqs [Lit ''DEFAULT CHARSET='', Plus (Cls WordChar)],
           seqs [Lit ''COLLATE='', Plus (Cls WordChar)]]"

definition post_process :: "string \<Rightarrow> string" where
  "post_process sqliteQuery =
     trim
       (replace_all False (seqs [Lit [CHR 0x0A], Star (Cls WhiteSpace), Lit [CHR 0x0A]])
          (\<lambda>g. [CHR 0x0A]) None
          (replace_all False (Plus (Cls (OneOf [CHR 0x20, CHR 0x09]))) (\<lambda>g. '' '') None
             (replace_all False table_options_rx (\<lambda>g. []) None sqliteQuery)))"

text \<open>The formatting, by the kind of query.\<close>

definition format_query :: "string \<Rightarrow> js_error + string" where
  "format_query sqliteQuery =
     (if prefix ''create table'' (toLowerCase sqliteQuery) then formatCreateTable sqliteQuery
      else if sublist ''group_concat'' (toLowerCase sqliteQuery)
      then Inr (handleGroupConcat sqliteQuery)
      else Inr (formatSQL sqliteQuery))"

text \<open>
  The warning for WITH ROLLUP: the text with the construct replaced by a comment, and
  the messages written with \<^verbatim>\<open>console.warn\<close>.
\<close>

definition rollup_warning :: "string \<Rightarrow> string \<times> string list" where
  "rollup_warning sqliteQuery =
     (if sublist ''WITH ROLLUP'' sqliteQuery
      then (replace_all False (Lit ''WITH ROLLUP'') (\<lambda>g. ''/* WITH ROLLUP not supported */'')
              None sqliteQuery,
            [''GROUP BY WITH ROLLUP is not supported in SQLite''])
      else (sqliteQuery, []))"

text \<open>
  The translator returns the translated query and the warnings, or raises the
  exception of \<open>formatCreateTable\<close>.
\<close>

definition mysqlToSQLiteParser :: "string \<Rightarrow> js_error + string \<times> string list" where
  "mysqlToSQLiteParser mysqlQuery =
     (case format_query (post_process (apply_mappings mysqlQuery)) of
        Inl e \<Rightarrow> Inl e
      | Inr sqliteQuery \<Rightarrow> Inr (rollup_warning sqliteQuery))"

section \<open>Notions used in the properties\<close>

text \<open>
  Every match of a pattern contains one of a few literals, read off the pattern:
  \<open>req r\<close> lists them (the empty literal when the pattern promises nothing). With the
  flag \<^verbatim>\<open>i\<close> the literal is contained up to letter case.
\<close>

fun req :: "rx \<Rightarrow> string list" where
  "req (Lit l) = [l]"
| "req (Seq a b) = (if [] \<in> set (req a) then req b else req a)"
| "req (Alt a b) = req a @ req b"
| "req (Grp n a) = req a"
| "req r = [[]]"

definition canon :: "bool \<Rightarrow> string \<Rightarrow> string" where
  "canon ci s = (if ci then map to_upper s else s)"

definition has_lit :: "bool \<Rightarrow> string \<Rightarrow> string \<Rightarrow> bool" where
  "has_lit ci l s = sublist (canon ci l) (canon ci s)"

text \<open>
  \<open>consumed r ci st st'\<close>: the matcher went from \<open>st\<close> to \<open>st'\<close> over a text that contains
  one of the literals of \<open>r\<close>.
\<close>

definition consumed :: "rx \<Rightarrow> bool \<Rightarrow> mstate \<Rightarrow> mstate \<Rightarrow> bool" where
  "consumed r ci st st' =
     (\<exists>m. rest_of st = m @ rest_of st' \<and> (\<exists>l\<in>set (req r). has_lit ci l m))"







section \<open>Properties of the matcher\<close>

declare rx_match.simps [simp del] replace_all.simps [simp del] replace_first.simps [simp del]
  match.simps [simp del]

lemma canon_append: "canon ci (a @ b) = canon ci a @ canon ci b"
  by (simp add: canon_def)

lemma has_lit_appendI1: "has_lit ci l m \<Longrightarrow> has_lit ci l (m @ m')"
  unfolding has_lit_def canon_append by (metis sublist_appendI append_Nil sublist_append_rightI sublist_order.order_trans)

lemma has_lit_appendI2: "has_lit ci l m \<Longrightarrow> has_lit ci l (m' @ m)"
  unfolding has_lit_def canon_append by (metis sublist_append_leftI sublist_order.order_trans)

lemma has_lit_Nil: "has_lit ci [] m"
  by (simp add: has_lit_def canon_def)

lemma lit_match_sound:
  "lit_match ci l p s = Some (p', s') \<Longrightarrow> \<exists>m. s = m @ s' \<and> canon ci m = canon ci l \<and> length m = length l"
proof (induction ci l p s rule: lit_match.induct)
  case (1 ci p s)
  then show ?case by (simp add: canon_def)
next
  case (2 ci x xs p)
  then show ?case by simp
next
  case (3 ci x xs p y ys)
  from "3.prems" have e: "chr_eq ci x y" and r: "lit_match ci xs (Some y) ys = Some (p', s')"
    by (auto split: if_splits)
  from "3.IH"[OF e r] obtain m where m: "ys = m @ s'" "canon ci m = canon ci xs" "length m = length xs"
    by blast
  from e have "canon ci [y] = canon ci [x]" by (auto simp: chr_eq_def canon_def split: if_splits)
  with m have "y # ys = (y # m) @ s' \<and> canon ci (y # m) = canon ci (x # xs) \<and> length (y # m) = length (x # xs)"
    by (auto simp: canon_def split: if_splits)
  then show ?case by blast
qed

lemma consumedI: "rest_of st = m @ rest_of st' \<Longrightarrow> l \<in> set (req r) \<Longrightarrow> has_lit ci l m \<Longrightarrow> consumed r ci st st'"
  unfolding consumed_def by blast

lemma consumed_weak: "consumed r ci st st' \<Longrightarrow> [] \<in> set (req r') \<Longrightarrow> consumed r' ci st st'"
  unfolding consumed_def using has_lit_Nil by blast

lemma consumed_refl: "[] \<in> set (req r) \<Longrightarrow> consumed r ci st st"
  unfolding consumed_def using has_lit_Nil by auto

lemma consumed_Seq:
  assumes "consumed a ci st st1" "consumed b ci st1 st'"
  shows "consumed (Seq a b) ci st st'"
proof -
  from assms(1) obtain m1 l1 where 1: "rest_of st = m1 @ rest_of st1" "l1 \<in> set (req a)" "has_lit ci l1 m1"
    unfolding consumed_def by blast
  from assms(2) obtain m2 l2 where 2: "rest_of st1 = m2 @ rest_of st'" "l2 \<in> set (req b)" "has_lit ci l2 m2"
    unfolding consumed_def by blast
  have r: "rest_of st = (m1 @ m2) @ rest_of st'" using 1 2 by simp
  show ?thesis
  proof (cases "[] \<in> set (req a)")
    case True
    then have "l2 \<in> set (req (Seq a b))" using 2 by simp
    then show ?thesis using r has_lit_appendI2[OF 2(3), of m1] unfolding consumed_def by blast
  next
    case False
    then have "l1 \<in> set (req (Seq a b))" using 1 by simp
    then show ?thesis using r has_lit_appendI1[OF 1(3), of m2] unfolding consumed_def by blast
  qed
qed

lemma consumed_trans_weak:
  assumes "consumed a ci st st1" "consumed b ci st1 st'" "[] \<in> set (req r)"
  shows "consumed r ci st st'"
proof -
  from assms obtain m1 m2 where "rest_of st = m1 @ rest_of st1" "rest_of st1 = m2 @ rest_of st'"
    unfolding consumed_def by blast
  then have "rest_of st = (m1 @ m2) @ rest_of st'" by simp
  then show ?thesis using assms(3) has_lit_Nil unfolding consumed_def by blast
qed

lemma consumed_Alt1: "consumed a ci st st' \<Longrightarrow> consumed (Alt a b) ci st st'"
  unfolding consumed_def by auto

lemma consumed_Alt2: "consumed b ci st st' \<Longrightarrow> consumed (Alt a b) ci st st'"
  unfolding consumed_def by auto

lemma consumed_Grp: "consumed a ci st st' \<Longrightarrow> consumed (Grp n a) ci st (set_group n s st')"
  unfolding consumed_def set_group_def rest_of_def by (auto split: prod.splits)

lemma rx_match_consumed: "\<forall>st'\<in>set (rx_match ci r st). consumed r ci st st'"
proof (induction ci r st rule: rx_match.induct)
  case (1 ci l st)
  show ?case
  proof
    fix st' assume "st' \<in> set (rx_match ci (Lit l) st)"
    then obtain p' s' where l: "lit_match ci l (fst st) (rest_of st) = Some (p', s')"
      and st': "st' = (p', s', snd (snd st))"
      by (cases "lit_match ci l (fst st) (rest_of st)") (auto simp: rx_match.simps)
    from lit_match_sound[OF l] obtain m where m: "rest_of st = m @ s'" "canon ci m = canon ci l" by blast
    have "has_lit ci l m" using m by (simp add: has_lit_def)
    then show "consumed (Lit l) ci st st'" using m st' unfolding consumed_def rest_of_def by auto
  qed
next
  case (2 ci k st)
  show ?case
  proof (cases "rest_of st")
    case Nil
    then show ?thesis by (simp add: rx_match.simps)
  next
    case (Cons y ys)
    have "rest_of st = [y] @ ys" using Cons by simp
    then have "consumed (Cls k) ci st (Some y, ys, snd (snd st))"
      unfolding consumed_def rest_of_def using has_lit_Nil by auto
    then show ?thesis using Cons by (simp add: rx_match.simps)
  qed
next
  case (3 ci a b st)
  show ?case
  proof
    fix st' assume "st' \<in> set (rx_match ci (Seq a b) st)"
    then obtain st1 where 1: "st1 \<in> set (rx_match ci a st)" and 2: "st' \<in> set (rx_match ci b st1)"
      by (auto simp: rx_match.simps)
    from "3.IH"(1) 1 have c1: "consumed a ci st st1" by blast
    from "3.IH"(2)[OF 1] 2 have c2: "consumed b ci st1 st'" by blast
    show "consumed (Seq a b) ci st st'" using consumed_Seq[OF c1 c2] .
  qed
next
  case (4 ci a b st)
  then show ?case by (auto simp: rx_match.simps intro: consumed_Alt1 consumed_Alt2)
next
  case (5 ci a st)
  then show ?case
    by (auto simp: rx_match.simps intro: consumed_weak consumed_refl)
next
  case (6 ci a st)
  show ?case
  proof
    fix st' assume "st' \<in> set (rx_match ci (Star a) st)"
    then consider "st' = st" | st1 where "st1 \<in> set (rx_match ci a st)" "advanced st st1" "st' \<in> set (rx_match ci (Star a) st1)"
      by (subst (asm) rx_match.simps) (auto split: if_splits)
    then show "consumed (Star a) ci st st'"
    proof cases
      case 1
      then show ?thesis by (simp add: consumed_refl)
    next
      case 2
      from "6.IH"(1) 2(1) have c1: "consumed a ci st st1" by blast
      from "6.IH"(2)[OF 2(1) 2(2)] 2(3) have c2: "consumed (Star a) ci st1 st'" by blast
      show ?thesis using consumed_trans_weak[OF c1 c2] by simp
    qed
  qed
next
  case (7 ci a st)
  show ?case
  proof
    fix st' assume "st' \<in> set (rx_match ci (LazyStar a) st)"
    then consider "st' = st" | st1 where "st1 \<in> set (rx_match ci a st)" "advanced st st1" "st' \<in> set (rx_match ci (LazyStar a) st1)"
      by (subst (asm) rx_match.simps) (auto split: if_splits)
    then show "consumed (LazyStar a) ci st st'"
    proof cases
      case 1
      then show ?thesis by (simp add: consumed_refl)
    next
      case 2
      from "7.IH"(1) 2(1) have c1: "consumed a ci st st1" by blast
      from "7.IH"(2)[OF 2(1) 2(2)] 2(3) have c2: "consumed (LazyStar a) ci st1 st'" by blast
      show ?thesis using consumed_trans_weak[OF c1 c2] by simp
    qed
  qed
next
  case (8 ci n a st)
  then show ?case
    by (auto simp: rx_match.simps intro: consumed_Grp)
next
  case (9 ci st)
  then show ?case by (auto simp: rx_match.simps consumed_refl)
next
  case (10 ci st)
  then show ?case by (auto simp: rx_match.simps consumed_refl)
next
  case (11 ci st)
  then show ?case by (auto simp: rx_match.simps consumed_refl)
qed

lemma has_lit_mono: "has_lit ci l s' \<Longrightarrow> sublist s' s \<Longrightarrow> has_lit ci l s"
proof -
  assume a: "has_lit ci l s'" and b: "sublist s' s"
  from b obtain ps ss where "s = ps @ s' @ ss" by (auto simp: sublist_def)
  then have "canon ci s = canon ci ps @ canon ci s' @ canon ci ss" by (simp add: canon_append)
  then have "sublist (canon ci s') (canon ci s)" unfolding sublist_def by blast
  with a show ?thesis unfolding has_lit_def by (meson sublist_order.order_trans)
qed

lemma rx_exec_None:
  assumes "\<forall>l\<in>set (req r). \<not> has_lit ci l s"
  shows "rx_exec ci r p s = None"
proof (cases "rx_match ci r (p, s, Map.empty)")
  case Nil
  then show ?thesis by (simp add: rx_exec_def)
next
  case (Cons st' sts)
  then have "st' \<in> set (rx_match ci r (p, s, Map.empty))" by simp
  with rx_match_consumed have "consumed r ci (p, s, Map.empty) st'" by blast
  then obtain m l where m: "s = m @ rest_of st'" "l \<in> set (req r)" "has_lit ci l m"
    unfolding consumed_def rest_of_def by auto
  have "sublist m s" using m(1) by (metis sublist_appendI append_Nil)
  with has_lit_mono[OF m(3)] assms m(2) show ?thesis by blast
qed

lemma replace_all_skip:
  "\<forall>l\<in>set (req r). \<not> has_lit ci l s \<Longrightarrow> replace_all ci r f p s = s"
proof (induction s arbitrary: p)
  case Nil
  then show ?case by (subst replace_all.simps) (simp add: rx_exec_None)
next
  case (Cons c cs)
  have "\<forall>l\<in>set (req r). \<not> has_lit ci l cs"
    using Cons.prems has_lit_mono[of ci _ cs "c # cs"] by (meson sublist_Cons_right sublist_order.order_refl)
  then have "replace_all ci r f (Some c) cs = cs" by (rule Cons.IH)
  then show ?case using Cons.prems by (subst replace_all.simps) (simp add: rx_exec_None)
qed

lemma apply_mapping_eval:
  "apply_mapping s (ci, r, f) =
     (if list_all (\<lambda>l. \<not> has_lit ci l s) (req r) then s else replace_all ci r f None s)"
  by (simp add: apply_mapping_def replace_all_skip list_all_iff)

text \<open>The unfoldings that evaluate the program on a given query.\<close>

lemmas chr_eval = toLowerCase_def toUpperCase_def to_lower_def to_upper_def is_upper_def
  is_lower_def is_digit_def is_word_def is_space_def is_line_terminator_def char_of_def
  bit_Suc_0_iff chr_eq_def

lemmas rx_eval = rx_match.simps replace_all.simps replace_first.simps match.simps rx_exec_def
  rest_of_def advanced_def set_group_def word_before_def word_after_def has_lit_def canon_def

lemmas prog_eval = functionMappings_def apply_mapping_eval apply_mappings_def
  table_options_rx_def post_process_def format_query_def formatSQL_def clause_line_def
  formatCreateTable_def create_table_rx_def trailing_comma_rx_def handleGroupConcat_def
  group_concat_distinct_rx_def group_concat_distinct_fn_def group_concat_dot_rx_def
  rollup_warning_def mysqlToSQLiteParser_def concat_fn_def trim_def slice_def
  sublist_Cons_right suffix_to_prefix

section \<open>The lazy argument capture\<close>

text \<open>
  The function rules capture their argument with \<^verbatim>\<open>(.*?)\<close> in front of a closing
  parenthesis. The matcher tries the shortest capture first, so the capture ends at the
  first closing parenthesis of the line.
\<close>

lemma lit_match_append:
  "lit_match False l p (l @ s) = Some (if l = [] then p else Some (last l), s)"
  by (induction l arbitrary: p) (auto simp: chr_eq_def)

lemma rx_match_Lit_append:
  "rx_match False (Lit l) (p, l @ s, g) = [(if l = [] then p else Some (last l), s, g)]"
  by (simp add: rx_match.simps rest_of_def lit_match_append)

lemma rx_match_Lit_Cons_neq:
  "c \<noteq> d \<Longrightarrow> rx_match False (Lit (d # l)) (p, c # s, g) = []"
  by (simp add: rx_match.simps rest_of_def chr_eq_def)

lemma lazy_dot_Cons:
  "\<not> is_line_terminator c \<Longrightarrow>
   rx_match ci (LazyStar (Cls Dot)) (p, c # s, g) =
     (p, c # s, g) # rx_match ci (LazyStar (Cls Dot)) (Some c, s, g)"
  by (subst rx_match.simps) (simp add: rx_match.simps rest_of_def advanced_def)

lemma lit_paren_fail:
  "c \<noteq> CHR '')'' \<Longrightarrow> rx_match False (Lit '')'') (set_group n s0 (p, c # s, g)) = []"
  by (simp add: set_group_def rx_match.simps(1) rest_of_def chr_eq_def)

lemma lit_paren_ok:
  "rx_match False (Lit '')'') (set_group n (a0 @ '')'' @ s) (p, '')'' @ s, g)) =
     [(Some (CHR '')''), s, g(n \<mapsto> a0))]"
  by (simp add: set_group_def rx_match.simps(1) rest_of_def chr_eq_def)

lemma lazy_capture_first_paren:
  "\<forall>c\<in>set a. c \<noteq> CHR '')'' \<and> \<not> is_line_terminator c \<Longrightarrow>
   \<exists>sts. concat (map (rx_match False (Lit '')''))
                  (map (set_group n (a0 @ a @ '')'' @ s))
                     (rx_match False (LazyStar (Cls Dot)) (p, a @ '')'' @ s, g)))) =
               (Some (CHR '')''), s, g(n \<mapsto> a0 @ a)) # sts"
proof (induction a arbitrary: a0 p)
  case Nil
  have nl: "\<not> is_line_terminator (CHR '')'')" by (simp add: is_line_terminator_def)
  have "concat (map (rx_match False (Lit '')''))
                  (map (set_group n (a0 @ '')'' @ s))
                     (rx_match False (LazyStar (Cls Dot)) (p, '')'' @ s, g)))) =
        (Some (CHR '')''), s, g(n \<mapsto> a0)) #
          concat (map (rx_match False (Lit '')''))
                  (map (set_group n (a0 @ '')'' @ s))
                     (rx_match False (LazyStar (Cls Dot)) (Some (CHR '')''), s, g))))"
    using lit_paren_ok[of n a0 s p g] by (simp add: lazy_dot_Cons nl)
  then show ?case by auto
next
  case (Cons c a)
  have c: "c \<noteq> CHR '')''" "\<not> is_line_terminator c" using Cons.prems by auto
  have a: "\<forall>c\<in>set a. c \<noteq> CHR '')'' \<and> \<not> is_line_terminator c" using Cons.prems by auto
  from Cons.IH[OF a, of "a0 @ [c]" "Some c"] obtain sts where
    sts: "concat (map (rx_match False (Lit '')''))
            (map (set_group n ((a0 @ [c]) @ a @ '')'' @ s))
               (rx_match False (LazyStar (Cls Dot)) (Some c, a @ '')'' @ s, g)))) =
          (Some (CHR '')''), s, g(n \<mapsto> (a0 @ [c]) @ a)) # sts"
    by blast
  have "concat (map (rx_match False (Lit '')''))
            (map (set_group n (a0 @ (c # a) @ '')'' @ s))
               (rx_match False (LazyStar (Cls Dot)) (p, (c # a) @ '')'' @ s, g)))) =
        concat (map (rx_match False (Lit '')''))
            (map (set_group n ((a0 @ [c]) @ a @ '')'' @ s))
               (rx_match False (LazyStar (Cls Dot)) (Some c, a @ '')'' @ s, g))))"
    using lit_paren_fail[OF c(1)] by (simp add: lazy_dot_Cons c(2))
  also note sts
  finally show ?case by auto
qed

lemma call1_exec:
  assumes "\<forall>c\<in>set a. c \<noteq> CHR '')'' \<and> \<not> is_line_terminator c"
  shows "rx_exec False (seqs [Lit (name @ ''(''), Grp 1 (LazyStar (Cls Dot)), Lit '')'']) p
           (name @ ''('' @ a @ '')'' @ s) = Some (Some (CHR '')''), s, [1 \<mapsto> a])"
proof -
  from lazy_capture_first_paren[OF assms, of 1 "[]" s "Some (CHR ''('')" Map.empty]
  obtain sts where "concat (map (rx_match False (Lit '')''))
                  (map (set_group 1 (a @ '')'' @ s))
                     (rx_match False (LazyStar (Cls Dot)) (Some (CHR ''(''), a @ '')'' @ s, Map.empty)))) =
               (Some (CHR '')''), s, [1 \<mapsto> a]) # sts" by auto
  moreover have "rx_match False (Lit (name @ ''('')) (p, (name @ ''('') @ a @ '')'' @ s, Map.empty)
     = [(Some (CHR ''(''), a @ '')'' @ s, Map.empty)]"
    by (subst rx_match_Lit_append) simp
  ultimately show ?thesis
    by (simp add: rx_exec_def rx_match.simps(3,8) rest_of_def)
qed

lemma split_no_sep: "d \<notin> set a \<Longrightarrow> split d a = [a]"
  by (induction a) (auto simp: Let_def)

lemma split_append_sep: "d \<notin> set a \<Longrightarrow> split d (a @ d # s) = a # split d s"
  by (induction a) (auto simp: Let_def)

lemma split_join:
  "\<forall>a\<in>set args. d \<notin> set a \<Longrightarrow> args \<noteq> [] \<Longrightarrow> split d (join [d] args) = args"
proof (induction args rule: induct_list012)
  case 1
  then show ?case by simp
next
  case (2 x)
  then show ?case by (simp add: split_no_sep)
next
  case (3 x y ys)
  then show ?case by (simp add: split_append_sep)
qed

lemma join_split_join:
  "\<forall>a\<in>set args. d \<notin> set a \<Longrightarrow> join sep (split d (join [d] args)) = join sep args"
  by (cases "args = []") (simp_all add: split_join)

lemma set_join: "set (join sep args) \<subseteq> set sep \<union> \<Union> (set ` set args)"
  by (induction sep args rule: join.induct) auto

lemma hd_functionMappings:
  "hd functionMappings =
     (False, seqs [Lit (''CONCAT'' @ ''(''), Grp 1 (LazyStar (Cls Dot)), Lit '')''], concat_fn)"
  by (simp add: functionMappings_def)

lemma join_chars:
  assumes "\<forall>a\<in>set args. \<forall>c\<in>set a. P c" "\<forall>c\<in>set sep. P c"
  shows "\<forall>c\<in>set (join sep args). P c"
  using assms set_join[of sep args] by blast

lemma concat_rule_general:
  assumes "\<forall>a\<in>set args. \<forall>c\<in>set a. c \<noteq> CHR '','' \<and> c \<noteq> CHR '')'' \<and> \<not> is_line_terminator c"
  shows "(case hd functionMappings of (ci, regex, replacement) \<Rightarrow>
            replace_all ci regex replacement p (''CONCAT('' @ join '','' args @ '')'' @ rest) =
            join '' || '' args @ replace_all ci regex replacement (Some (CHR '')'')) rest)"
proof -
  have "\<forall>a\<in>set args. \<forall>c\<in>set a. c \<noteq> CHR '')'' \<and> \<not> is_line_terminator c"
    using assms by blast
  then have 1: "\<forall>c\<in>set (join '','' args). c \<noteq> CHR '')'' \<and> \<not> is_line_terminator c"
    by (rule join_chars) (simp add: is_line_terminator_def)
  have 2: "\<forall>a\<in>set args. CHR '','' \<notin> set a" using assms by blast
  let ?r = "seqs [Lit (''CONCAT'' @ ''(''), Grp 1 (LazyStar (Cls Dot)), Lit '')'']"
  have e: "rx_exec False ?r p (''CONCAT'' @ ''('' @ join '','' args @ '')'' @ rest) =
             Some (Some (CHR '')''), rest, [1 \<mapsto> join '','' args])"
    by (rule call1_exec[OF 1])
  have j: "concat_fn [1 \<mapsto> join '','' args] = join '' || '' args"
    by (simp add: concat_fn_def join_split_join[OF 2])
  have "replace_all False ?r concat_fn p (''CONCAT'' @ ''('' @ join '','' args @ '')'' @ rest) =
          join '' || '' args @ replace_all False ?r concat_fn (Some (CHR '')'')) rest"
    using j by (subst replace_all.simps, subst e) simp
  then show ?thesis unfolding hd_functionMappings by simp
qed










section \<open>The WITH ROLLUP marker\<close>













section \<open>Letter case\<close>
















section \<open>The translator on given queries\<close>

lemma auto_increment_first:
  "mysqlToSQLiteParser ''id INT AUTO_INCREMENT PRIMARY KEY'' =
     Inr (''id INT PRIMARY KEY AUTOINCREMENT'', [])"
  by (simp add: chr_eval rx_eval prog_eval)

lemma auto_increment_last:
  "mysqlToSQLiteParser ''id INT PRIMARY KEY AUTO_INCREMENT'' =
     Inr (''id INT PRIMARY KEY PRIMARY KEY AUTOINCREMENT'', [])"
  by (simp add: chr_eval rx_eval prog_eval)

lemma autoincrement_again:
  "mysqlToSQLiteParser ''id INT PRIMARY KEY AUTOINCREMENT'' =
     Inr (''id INT PRIMARY KEY PRIMARY KEY AUTOINCREMENT'', [])"
  by (simp add: chr_eval rx_eval prog_eval)








lemma concat_comma_literal:
  "mysqlToSQLiteParser ''SELECT CONCAT(first, ', ', last) FROM t'' =
     Inr (''SELECT first || ' || ' || last FROM t'', [])"
  by (simp add: chr_eval rx_eval prog_eval)

lemma concat_rule_comma_literal:
  "apply_mapping ''CONCAT(a,', ',b)'' (hd functionMappings) = ''a || ' ||  ' || b''"
  by (simp add: hd_functionMappings apply_mapping_eval rx_eval chr_eval concat_fn_def)

section \<open>The claims\<close>

text \<open>
  C7: \<^verbatim>\<open>translate("SELECT CONCAT(a,' ',b) FROM t")\<close> contains \<^verbatim>\<open>a || ' ' || b\<close> and
  no \<^verbatim>\<open>CONCAT\<close>, and in general the CONCAT rule joins the same arguments, in number
  and order. The general part fails: the rule splits the captured text at every comma,
  so the three arguments \<^verbatim>\<open>a\<close>, \<^verbatim>\<open>', '\<close> and \<^verbatim>\<open>b\<close> come out as four pieces, and
  \<^verbatim>\<open>CONCAT(first, ', ', last)\<close> is translated to \<^verbatim>\<open>first || ' || ' || last\<close>.
\<close>

theorem concat_splits_at_every_comma:
  "apply_mapping
     (''CONCAT('' @ join '','' [''a'', [CHR 0x27, CHR '','', CHR '' '', CHR 0x27], ''b''] @ '')'')
     (hd functionMappings) = ''a || ' ||  ' || b''
   \<and> ''a || ' ||  ' || b'' \<noteq> join '' || '' [''a'', [CHR 0x27, CHR '','', CHR '' '', CHR 0x27], ''b'']
   \<and> mysqlToSQLiteParser ''SELECT CONCAT(first, ', ', last) FROM t'' =
       Inr (''SELECT first || ' || ' || last FROM t'', [])"
  using concat_rule_comma_literal concat_comma_literal by simp

text \<open>
  C7, amended: \<^verbatim>\<open>translate("SELECT CONCAT(a,' ',b) FROM t")\<close> contains
  \<^verbatim>\<open>a || ' ' || b\<close> and no \<^verbatim>\<open>CONCAT\<close>. Wherever the scan of the CONCAT rule meets a
  call \<^verbatim>\<open>CONCAT(a1,...,an)\<close> whose arguments hold no comma, no closing parenthesis and
  no line terminator, it writes the same arguments in the same order, joined with
  \<^verbatim>\<open> || \<close>, and goes on behind the call.
\<close>

theorem concat_rule_joins_arguments:
  "mysqlToSQLiteParser ''SELECT CONCAT(a,' ',b) FROM t'' = Inr (''SELECT a || ' ' || b FROM t'', [])
   \<and> sublist ''a || ' ' || b'' ''SELECT a || ' ' || b FROM t''
   \<and> \<not> sublist ''CONCAT'' ''SELECT a || ' ' || b FROM t''
   \<and> (\<forall>args p rest.
         (\<forall>a\<in>set args. \<forall>c\<in>set a. c \<noteq> CHR '','' \<and> c \<noteq> CHR '')'' \<and> \<not> is_line_terminator c) \<longrightarrow>
         (case hd functionMappings of (ci, regex, replacement) \<Rightarrow>
            replace_all ci regex replacement p (''CONCAT('' @ join '','' args @ '')'' @ rest) =
            join '' || '' args @ replace_all ci regex replacement (Some (CHR '')'')) rest))"
proof (intro conjI allI impI)
  show "mysqlToSQLiteParser ''SELECT CONCAT(a,' ',b) FROM t'' =
          Inr (''SELECT a || ' ' || b FROM t'', [])"
    by (simp add: chr_eval rx_eval prog_eval)
  show "sublist ''a || ' ' || b'' ''SELECT a || ' ' || b FROM t''"
    by (simp add: sublist_Cons_right)
  show "\<not> sublist ''CONCAT'' ''SELECT a || ' ' || b FROM t''"
    by (simp add: sublist_Cons_right)
next
  fix args p rest
  assume "\<forall>a\<in>set args. \<forall>c\<in>set a. c \<noteq> CHR '','' \<and> c \<noteq> CHR '')'' \<and> \<not> is_line_terminator c"
  then show "case hd functionMappings of (ci, regex, replacement) \<Rightarrow>
            replace_all ci regex replacement p (''CONCAT('' @ join '','' args @ '')'' @ rest) =
            join '' || '' args @ replace_all ci regex replacement (Some (CHR '')'')) rest"
    by (rule concat_rule_general)
qed

theorem concat_rule_joins_arguments_witness:
  "list_all (list_all (\<lambda>c. c \<noteq> CHR '','' \<and> c \<noteq> CHR '')'' \<and> \<not> is_line_terminator c))
     [''a'', ''b1'', ''c'']
   \<and> (case hd functionMappings of (ci, regex, replacement) \<Rightarrow>
         replace_all ci regex replacement (Some (CHR '' '')) ''CONCAT(a,b1,c) FROM t'' =
         ''a || b1 || c FROM t'')"
proof -
  have h: "\<forall>a\<in>set [''a'', ''b1'', ''c''].
             \<forall>c\<in>set a. c \<noteq> CHR '','' \<and> c \<noteq> CHR '')'' \<and> \<not> is_line_terminator c"
    by (simp add: is_line_terminator_def)
  have r: "replace_all False (seqs [Lit ''CONCAT('', Grp 1 (LazyStar (Cls Dot)), Lit '')''])
             concat_fn (Some (CHR '')'')) '' FROM t'' = '' FROM t''"
    by (rule replace_all_skip) (simp add: has_lit_def canon_def sublist_Cons_right)
  have "case hd functionMappings of (ci, regex, replacement) \<Rightarrow>
          replace_all ci regex replacement (Some (CHR '' ''))
            (''CONCAT('' @ join '','' [''a'', ''b1'', ''c''] @ '')'' @ '' FROM t'') =
          join '' || '' [''a'', ''b1'', ''c''] @
            replace_all ci regex replacement (Some (CHR '')'')) '' FROM t''"
    by (rule concat_rule_joins_arguments
          [THEN conjunct2, THEN conjunct2, THEN conjunct2, THEN spec, THEN spec, THEN spec,
           THEN mp, OF h])
  then show ?thesis using r by (simp add: hd_functionMappings is_line_terminator_def)
qed

text \<open>
  C1: the translator never raises. It does: the CREATE TABLE formatter reads group 1 of
  a match that is null when the table name does not start with a word character, as
  with a name in backticks. The lowercased query starts with \<^verbatim>\<open>create table\<close>.
\<close>

theorem create_table_backtick_raises:
  "mysqlToSQLiteParser ''CREATE TABLE `users` (\<newline>  id INT\<newline>);'' = Inl TypeError
   \<and> prefix ''create table'' (toLowerCase ''CREATE TABLE `users` (\<newline>  id INT\<newline>);'')"
  by (simp add: chr_eval rx_eval prog_eval)

text \<open>
  C2: the translator is a fixed point on its own output. It is not: the output
  \<^verbatim>\<open>id INT PRIMARY KEY AUTOINCREMENT\<close> holds no AUTO_INCREMENT of the source dialect,
  and a second pass rewrites its AUTOINCREMENT once more.
\<close>

theorem second_pass_changes_autoincrement:
  "mysqlToSQLiteParser ''id INT AUTO_INCREMENT PRIMARY KEY'' =
     Inr (''id INT PRIMARY KEY AUTOINCREMENT'', [])
   \<and> \<not> sublist ''AUTO_INCREMENT'' ''id INT PRIMARY KEY AUTOINCREMENT''
   \<and> mysqlToSQLiteParser ''id INT PRIMARY KEY AUTOINCREMENT'' =
     Inr (''id INT PRIMARY KEY PRIMARY KEY AUTOINCREMENT'', [])
   \<and> ''id INT PRIMARY KEY PRIMARY KEY AUTOINCREMENT'' \<noteq> ''id INT PRIMARY KEY AUTOINCREMENT''"
  by (simp add: auto_increment_first autoincrement_again sublist_Cons_right)

text \<open>
  C3: both orders of AUTO_INCREMENT and PRIMARY KEY give the same output. They do not:
  the first auto-increment rule also rewrites an AUTO_INCREMENT that follows
  PRIMARY KEY, and the key is written twice.
\<close>

theorem auto_increment_order_matters:
  "mysqlToSQLiteParser ''id INT AUTO_INCREMENT PRIMARY KEY'' =
     Inr (''id INT PRIMARY KEY AUTOINCREMENT'', [])
   \<and> mysqlToSQLiteParser ''id INT PRIMARY KEY AUTO_INCREMENT'' =
     Inr (''id INT PRIMARY KEY PRIMARY KEY AUTOINCREMENT'', [])
   \<and> mysqlToSQLiteParser ''id INT AUTO_INCREMENT PRIMARY KEY'' \<noteq>
     mysqlToSQLiteParser ''id INT PRIMARY KEY AUTO_INCREMENT''"
  by (simp add: auto_increment_first auto_increment_last)

text \<open>
  C4: \<^verbatim>\<open>GROUP_CONCAT(DISTINCT a.b)\<close> keeps DISTINCT and the argument inside the call.
  It does not: the CONCAT rule matches inside the name GROUP_CONCAT and removes the
  call, so the output holds no \<^verbatim>\<open>GROUP_CONCAT(\<close> any more.
\<close>

theorem group_concat_call_lost:
  "mysqlToSQLiteParser ''SELECT GROUP_CONCAT(DISTINCT a.b) FROM t'' =
     Inr (''SELECT GROUP_DISTINCT a.b FROM t'', [])
   \<and> \<not> sublist ''GROUP_CONCAT('' ''SELECT GROUP_DISTINCT a.b FROM t''"
  by (simp add: chr_eval rx_eval prog_eval)

text \<open>
  C5: an outer join is normalized to \<^verbatim>\<open>LEFT JOIN\<close> and no later rule matches the
  keyword again. The next rule does: its alternative \<^verbatim>\<open>\bJOIN\b\<close> matches the JOIN of
  \<^verbatim>\<open>LEFT JOIN\<close>, and the output holds \<^verbatim>\<open>LEFT INNER JOIN\<close>.
\<close>

theorem left_join_rewritten_again:
  "mysqlToSQLiteParser ''SELECT * FROM a LEFT JOIN b ON a.id = b.id'' =
     Inr (''SELECT * FROM a LEFT INNER JOIN b ON a.id = b.id'', [])
   \<and> \<not> sublist ''LEFT JOIN'' ''SELECT * FROM a LEFT INNER JOIN b ON a.id = b.id''"
  by (simp add: chr_eval rx_eval prog_eval)

text \<open>
  C8: a table with N column lines is formatted to N indented lines, with a comma on
  all but the last. The test for the last column looks the line up by its text, so a
  last line that repeats an earlier one keeps its comma.
\<close>

theorem repeated_last_column_keeps_comma:
  "mysqlToSQLiteParser ''CREATE TABLE t (\<newline>a INT,\<newline>b INT,\<newline>a INT,\<newline>);'' =
     Inr (''CREATE TABLE t (\<newline>    a INT,\<newline>    b INT,\<newline>    a INT,\<newline>    );'', [])"
  by (simp add: chr_eval rx_eval prog_eval)










end
